theory Spec2Isabelle
  imports Main "HOL-Library.Word"
begin

section \<open>Python values\<close>

text \<open>
  A Python \<open>str\<close> is a sequence of Unicode code points and \<open>len\<close> counts code points,
  so a \<open>str\<close> is a list of code points (natural numbers). \<open>py\<close> writes an ASCII
  literal of the source as such a list.
\<close>

type_synonym pystr = "nat list"

definition py :: "string \<Rightarrow> pystr" where
  "py s = map of_char s"

text \<open>
  The values the database client hands back inside records, hits and schema
  descriptions are dynamically typed. A float is kept as its 64-bit pattern (the tool
  never computes with one). A \<open>dict\<close> is an association list in insertion order, looked
  up with \<open>map_of\<close>.
\<close>

datatype pyval =
    PNone
  | PBool bool
  | PInt int
  | PFloat "64 word"
  | PStr pystr
  | PList "pyval list"
  | PDict "(pystr \<times> pyval) list"

type_synonym pydict = "(pystr \<times> pyval) list"

text \<open>
  An exception is either raised by the database client (an opaque message), or by the
  interpreter when the tool's own code meets a value of the wrong type (\<open>TypeError\<close>,
  \<open>KeyError\<close>, \<open>AttributeError\<close>, \<open>ValueError\<close>); every handler of the tool is
  \<open>except Exception\<close> and treats them alike.
\<close>

datatype pyexn = ClientError pystr | Fault

text \<open>Truth value testing, as \<open>if x:\<close> and \<open>not x\<close> do it.\<close>

fun truthy :: "pyval \<Rightarrow> bool" where
  "truthy PNone = False"
| "truthy (PBool b) = b"
| "truthy (PInt i) = (i \<noteq> 0)"
| "truthy (PFloat w) = (w \<noteq> 0 \<and> w \<noteq> 0x8000000000000000)"
| "truthy (PStr s) = (s \<noteq> [])"
| "truthy (PList xs) = (xs \<noteq> [])"
| "truthy (PDict d) = (d \<noteq> [])"

text \<open>\<open>len(x)\<close>: defined on strings, lists and dicts, a \<open>TypeError\<close> elsewhere.\<close>

fun py_len :: "pyval \<Rightarrow> nat option" where
  "py_len (PStr s) = Some (length s)"
| "py_len (PList xs) = Some (length xs)"
| "py_len (PDict d) = Some (length d)"
| "py_len _ = None"

text \<open>\<open>xs[:k]\<close>: a negative \<open>k\<close> counts from the end.\<close>

definition py_slice_to :: "'a list \<Rightarrow> int \<Rightarrow> 'a list" where
  "py_slice_to xs k =
     (if 0 \<le> k then take (nat k) xs else take (length xs - nat (- k)) xs)"

section \<open>Command line options\<close>

text \<open>
  The namespace \<open>parser.parse_args()\<close> returns (lines 18-55). An option whose default
  is \<open>None\<close> is an \<open>option\<close>.
\<close>

record args =
  uri :: pystr
  token :: pystr
  db :: pystr
  collection :: "pystr option"
  limit :: int
  offset :: int
  show_vectors :: bool
  vector_preview :: int
  search :: bool
  search_text :: "pystr option"
  search_vector :: "pystr option"
  search_id :: "int option"
  top_k :: int

text \<open>
  \<open>if args.collection\<close>, \<open>elif args.search_vector\<close>, \<open>elif args.search_text\<close>: the
  option counts as given when it is neither \<open>None\<close> nor the empty string.
\<close>

fun given :: "pystr option \<Rightarrow> pystr option" where
  "given None = None"
| "given (Some s) = (if s = [] then None else Some s)"

section \<open>The database client and the other libraries\<close>

text \<open>The keyword arguments of \<open>client.query\<close> (lines 88-93 and 243-249).\<close>

datatype query_filter = NoFilter | IdEquals int

record query_args =
  q_collection_name :: pystr
  q_filter :: query_filter
  q_output_fields :: "pystr option list"
  q_limit :: int
  q_offset :: "int option"

text \<open>The keyword arguments of \<open>client.search\<close> (lines 125-132).\<close>

record search_args =
  s_collection_name :: pystr
  s_data :: "pyval list"
  s_anns_field :: pystr
  s_param :: pydict
  s_limit :: int
  s_output_fields :: "pystr list"

text \<open>
  What \<open>describe_collection\<close> returns: a dict of which the tool reads the entries
  \<open>description\<close> and \<open>fields\<close> with \<open>.get\<close>, so either may be absent; \<open>fields\<close> is a list
  of dicts of which only \<open>.get("name")\<close> is read: a field is its name, \<open>None\<close> when the
  dict has none.
\<close>

record describe_result =
  d_description :: "pyval option"
  d_fields :: "pystr option list option"

text \<open>
  What \<open>json.loads\<close> does with a text: it returns a value, or raises
  \<open>JSONDecodeError\<close>, which line 111 catches, or raises another exception
  (\<open>RecursionError\<close> on a deeply nested text, \<open>ValueError\<close> on an integer of too many
  digits), which line 111 lets through to the handler of line 171.
\<close>

datatype json_result = Parsed pyval | JSONDecodeError | JsonRaised pyexn

text \<open>
  The environment of one run: the file system test, the client constructor and the
  methods of the client (each returns or raises), \<open>json.loads\<close> and
  \<open>np.linalg.norm\<close>. \<open>get_collection_stats\<close> is \<open>None\<close> when the client has no such
  attribute (\<open>hasattr\<close>, line 192).
\<close>

record env =
  path_exists :: "pystr \<Rightarrow> bool"
  connect :: "pystr \<Rightarrow> pystr \<Rightarrow> pystr \<Rightarrow> pyexn option"
  has_collection :: "pystr \<Rightarrow> pyexn + bool"
  list_collections :: "pyexn + pystr list"
  describe_collection :: "pystr \<Rightarrow> pyexn + describe_result"
  get_collection_stats :: "(pystr \<Rightarrow> pyexn + pydict) option"
  query :: "query_args \<Rightarrow> pyexn + pydict list"
  search_call :: "search_args \<Rightarrow> pyexn + pydict list list"
  json_loads :: "pystr \<Rightarrow> json_result"
  np_norm :: "pyval \<Rightarrow> pyexn + 64 word"

section \<open>What a run does\<close>

text \<open>
  One constructor per \<open>print\<close> statement of the source, carrying the values the
  statement formats into its message.
\<close>

datatype cell = Description pyval | DescribeFailed pyexn

type_synonym row = "pystr \<times> cell \<times> pyval"

datatype line =
    FileNotExist pystr
  | Connected pystr
  | ConnectFailed pyexn
  | SearchNeedsCollection
  | SearchCollectionMissing pystr
  | UsingIdVector int
  | IdNotFound int
  | IdLookupFailed int pyexn
  | VectorNotArray
  | UsingGivenVector nat
  | VectorNotJson
  | TextNotImplemented
  | TextHint
  | MissingSearchArgument
  | NoSimilarResults
  | FoundResults nat
  | HitHeader nat pyval
  | TextLine pyval
  | ReferenceLine pyval
  | MetadataHeader
  | MetadataEntry pystr pyval
  | IdLine pyval
  | SearchFailed pyexn
  | SearchOperationFailed pyexn
  | NoCollections
  | CollectionListTitle
  | Table "row list"
  | ListFailed pyexn
  | CollectionMissing pystr
  | CollectionInfo pystr
  | DescriptionLine pyval
  | NoFieldsWarning
  | NoData pystr
  | DataRange int int
  | DataHeader int
  | VectorDim nat
  | VectorPreview int pyval
  | VectorNorm "64 word"
  | VectorRaw pyval
  | OtherField pystr pyval
  | QueryFailed pyexn
  | QueryFailedKind pyexn
  | InfoFailed pyexn

text \<open>The calls a run makes on the client, with their arguments.\<close>

datatype client_call =
    Connect pystr pystr pystr
  | HasCollection pystr
  | ListCollections
  | DescribeCollection pystr
  | GetCollectionStats pystr
  | Query query_args
  | Search search_args

text \<open>
  A run is the sequence of its events, in order: a printed line, a call on the client,
  or the trace \<open>traceback.print_exc()\<close> writes.
\<close>

datatype event = Print line | Call client_call | PrintExc pyexn

fun is_search :: "event \<Rightarrow> bool" where
  "is_search (Call (Search sa)) = True"
| "is_search _ = False"

section \<open>Rendering a record\<close>

text \<open>
  A block of statements prints lines and then either falls through or raises: the
  lines printed, and the exception if one was raised. \<open>seqs\<close> runs blocks in order
  and stops at the first that raises.
\<close>

type_synonym outcome = "line list \<times> pyexn option"

fun seqs :: "outcome list \<Rightarrow> outcome" where
  "seqs [] = ([], None)"
| "seqs ((ls, Some e) # bs) = (ls, Some e)"
| "seqs ((ls, None) # bs) = (ls @ fst (seqs bs), snd (seqs bs))"

text \<open>
  Lines 144-148 and, word for word, lines 266-270:
  \<^verbatim>\<open>
    text = hit["text"]
    if len(text) > 100:
        text = text[:97] + "..."
  \<close>
  A list or dict of more than 100 elements raises at the slice or at the \<open>+\<close>.
\<close>

definition shorten :: "pyval \<Rightarrow> pyexn + pyval" where
  "shorten t =
     (case py_len t of
        None \<Rightarrow> Inl Fault
      | Some n \<Rightarrow>
          if n > 100 then
            (case t of PStr s \<Rightarrow> Inr (PStr (take 97 s @ py ''...'')) | _ \<Rightarrow> Inl Fault)
          else Inr t)"

definition text_block :: "pydict \<Rightarrow> outcome" where
  "text_block item =
     (case map_of item (py ''text'') of
        None \<Rightarrow> ([], None)
      | Some t \<Rightarrow>
          (case shorten t of
             Inl e \<Rightarrow> ([], Some e)
           | Inr t' \<Rightarrow> ([TextLine t'], None)))"

definition reference_block :: "pydict \<Rightarrow> outcome" where
  "reference_block item =
     (case map_of item (py ''reference'') of
        None \<Rightarrow> ([], None)
      | Some r \<Rightarrow> ([ReferenceLine r], None))"

text \<open>
  Lines 155-158 and 277-280. The heading is printed before \<open>.items()\<close> is called, which
  only a dict has.
\<close>

definition metadata_block :: "pydict \<Rightarrow> outcome" where
  "metadata_block item =
     (case map_of item (py ''metadata'') of
        None \<Rightarrow> ([], None)
      | Some m \<Rightarrow>
          if truthy m then
            (case m of
               PDict d \<Rightarrow> (MetadataHeader # map (\<lambda>(k, v). MetadataEntry k v) d, None)
             | _ \<Rightarrow> ([MetadataHeader], Some Fault))
          else ([], None))"

definition id_block :: "pydict \<Rightarrow> outcome" where
  "id_block item =
     (case map_of item (py ''id'') of
        None \<Rightarrow> ([], None)
      | Some v \<Rightarrow> ([IdLine v], None))"

text \<open>
  Line 141: \<open>hit['score']\<close> raises when the hit has no score, and the format \<open>.4f\<close>
  raises on anything but a number.
\<close>

fun is_number :: "pyval \<Rightarrow> bool" where
  "is_number (PInt i) = True"
| "is_number (PFloat w) = True"
| "is_number (PBool b) = True"
| "is_number _ = False"

definition hit_header :: "nat \<Rightarrow> pydict \<Rightarrow> outcome" where
  "hit_header i hit =
     (case map_of hit (py ''score'') of
        None \<Rightarrow> ([], Some Fault)
      | Some s \<Rightarrow> if is_number s then ([HitHeader (i + 1) s], None) else ([], Some Fault))"

text \<open>The body of the loop over the hits (lines 141-162).\<close>

definition render_hit :: "nat \<Rightarrow> pydict \<Rightarrow> outcome" where
  "render_hit i hit =
     seqs [hit_header i hit, text_block hit, reference_block hit, metadata_block hit,
           id_block hit]"

fun render_hits :: "nat \<Rightarrow> pydict list \<Rightarrow> outcome" where
  "render_hits i [] = ([], None)"
| "render_hits i (hit # hits) = seqs [render_hit i hit, render_hits (i + 1) hits]"

text \<open>
  Lines 283-292: the vector of a record, when vectors are shown. The client returns a
  vector as a list, the first alternative of the test at line 285; the norm is printed
  after the two lines before it, so an exception of \<open>np.linalg.norm\<close> leaves those.
\<close>

definition vector_block :: "env \<Rightarrow> args \<Rightarrow> pydict \<Rightarrow> outcome" where
  "vector_block en a item =
     (if show_vectors a then
        (case map_of item (py ''embedding'') of
           None \<Rightarrow> ([], None)
         | Some (PList xs) \<Rightarrow>
             seqs [([VectorDim (length xs),
                     VectorPreview (vector_preview a) (PList (py_slice_to xs (vector_preview a)))],
                    None),
                   (case np_norm en (PList xs) of
                      Inl e \<Rightarrow> ([], Some e)
                    | Inr n \<Rightarrow> ([VectorNorm n], None))]
         | Some v \<Rightarrow> ([VectorRaw v], None))
      else ([], None))"

text \<open>Lines 295-297: the fields of the schema that no block above has printed.\<close>

definition reserved :: "pystr list" where
  "reserved = [py ''text'', py ''reference'', py ''metadata'', py ''embedding'', py ''id'']"

fun other_field :: "pydict \<Rightarrow> pystr option \<Rightarrow> line list" where
  "other_field item None = []"
| "other_field item (Some f) =
     (if f \<notin> set reserved then
        (case map_of item f of None \<Rightarrow> [] | Some v \<Rightarrow> [OtherField f v])
      else [])"

definition other_fields :: "pystr option list \<Rightarrow> pydict \<Rightarrow> outcome" where
  "other_fields field_names item = (concat (map (other_field item) field_names), None)"

text \<open>The body of the loop over the records of a page (lines 259-297).\<close>

definition render_item :: "env \<Rightarrow> args \<Rightarrow> pystr option list \<Rightarrow> nat \<Rightarrow> pydict \<Rightarrow> outcome" where
  "render_item en a field_names i item =
     seqs [([DataHeader (offset a + int i + 1)], None), id_block item, text_block item,
           reference_block item, metadata_block item, vector_block en a item,
           other_fields field_names item]"

fun render_items :: "env \<Rightarrow> args \<Rightarrow> pystr option list \<Rightarrow> nat \<Rightarrow> pydict list \<Rightarrow> outcome" where
  "render_items en a field_names i [] = ([], None)"
| "render_items en a field_names i (item # items) =
     seqs [render_item en a field_names i item, render_items en a field_names (i + 1) items]"

section \<open>Search mode\<close>

text \<open>
  Lines 83-121: resolving the query vector. The result is the events of the
  resolution and the vector, \<open>None\<close> when the resolution has printed an error and
  \<open>main\<close> returns. The lookup by id (lines 88-93) passes no \<open>offset\<close>.
\<close>

definition id_lookup :: "pystr \<Rightarrow> int \<Rightarrow> query_args" where
  "id_lookup c i =
     \<lparr>q_collection_name = c, q_filter = IdEquals i, q_output_fields = [Some (py ''embedding'')],
      q_limit = 1, q_offset = None\<rparr>"

definition resolve_by_id :: "env \<Rightarrow> pystr \<Rightarrow> int \<Rightarrow> event list \<times> pyval option" where
  "resolve_by_id en c i =
     (case query en (id_lookup c i) of
        Inl e \<Rightarrow> ([Call (Query (id_lookup c i)), Print (IdLookupFailed i e)], None)
      | Inr [] \<Rightarrow> ([Call (Query (id_lookup c i)), Print (IdNotFound i)], None)
      | Inr (r # rs) \<Rightarrow>
          (case map_of r (py ''embedding'') of
             None \<Rightarrow> ([Call (Query (id_lookup c i)), Print (IdNotFound i)], None)
           | Some v \<Rightarrow> ([Call (Query (id_lookup c i)), Print (UsingIdVector i)], Some v)))"

definition resolve_by_vector :: "env \<Rightarrow> pystr \<Rightarrow> event list \<times> pyval option" where
  "resolve_by_vector en s =
     (case json_loads en s of
        JSONDecodeError \<Rightarrow> ([Print VectorNotJson], None)
      | JsonRaised e \<Rightarrow> ([Print (SearchOperationFailed e)], None)
      | Parsed (PList xs) \<Rightarrow> ([Print (UsingGivenVector (length xs))], Some (PList xs))
      | Parsed v \<Rightarrow> ([Print VectorNotArray], None))"

definition resolve :: "env \<Rightarrow> args \<Rightarrow> pystr \<Rightarrow> event list \<times> pyval option" where
  "resolve en a c =
     (case search_id a of
        Some i \<Rightarrow> resolve_by_id en c i
      | None \<Rightarrow>
          (case given (search_vector a) of
             Some s \<Rightarrow> resolve_by_vector en s
           | None \<Rightarrow>
               (case given (search_text a) of
                  Some t \<Rightarrow> ([Print TextNotImplemented, Print TextHint], None)
                | None \<Rightarrow> ([Print MissingSearchArgument], None))))"

text \<open>Lines 124-167: the search call and the report of its hits.\<close>

definition search_request :: "args \<Rightarrow> pystr \<Rightarrow> pyval \<Rightarrow> search_args" where
  "search_request a c v =
     \<lparr>s_collection_name = c, s_data = [v], s_anns_field = py ''embedding'',
      s_param = [(py ''metric_type'', PStr (py ''L2''))], s_limit = top_k a,
      s_output_fields = [py ''text'', py ''reference'', py ''metadata'']\<rparr>"

definition report_hits :: "pydict list \<Rightarrow> event list" where
  "report_hits hits =
     (case render_hits 0 hits of
        (ls, None) \<Rightarrow> map Print ls
      | (ls, Some e) \<Rightarrow> map Print ls @ [Print (SearchFailed e), PrintExc e])"

definition run_search :: "env \<Rightarrow> args \<Rightarrow> pystr \<Rightarrow> pyval \<Rightarrow> event list" where
  "run_search en a c v =
     Call (Search (search_request a c v)) #
     (case search_call en (search_request a c v) of
        Inl e \<Rightarrow> [Print (SearchFailed e), PrintExc e]
      | Inr [] \<Rightarrow> [Print NoSimilarResults]
      | Inr (hits # others) \<Rightarrow>
          if hits = [] then [Print NoSimilarResults]
          else Print (FoundResults (length hits)) # report_hits hits)"

text \<open>Lines 71-173: the whole of the search mode.\<close>

definition search_mode :: "env \<Rightarrow> args \<Rightarrow> event list" where
  "search_mode en a =
     (case given (collection a) of
        None \<Rightarrow> [Print SearchNeedsCollection]
      | Some c \<Rightarrow>
          Call (HasCollection c) #
          (case has_collection en c of
             Inl e \<Rightarrow> [Print (SearchOperationFailed e)]
           | Inr False \<Rightarrow> [Print (SearchCollectionMissing c)]
           | Inr True \<Rightarrow>
               (case resolve en a c of
                  (evs, None) \<Rightarrow> evs
                | (evs, Some v) \<Rightarrow> evs @ run_search en a c v)))"

section \<open>Listing the collections\<close>

text \<open>The sentinel of line 190, 197 and 201: the two code points of the word for "unknown".\<close>

definition unknown :: pyval where
  "unknown = PStr [26410, 30693]"

text \<open>Lines 190-197: the row count of one collection.\<close>

definition row_count :: "env \<Rightarrow> pystr \<Rightarrow> event list \<times> pyval" where
  "row_count en c =
     (case get_collection_stats en of
        None \<Rightarrow> ([], unknown)
      | Some stats_of \<Rightarrow>
          (case stats_of c of
             Inl e \<Rightarrow> ([Call (GetCollectionStats c)], unknown)
           | Inr stats \<Rightarrow>
               (case map_of stats (py ''row_count'') of
                  None \<Rightarrow> ([Call (GetCollectionStats c)], unknown)
                | Some n \<Rightarrow> ([Call (GetCollectionStats c)], n))))"

text \<open>Lines 186-201: the body of the loop over the collections, one row each.\<close>

definition collection_row :: "env \<Rightarrow> pystr \<Rightarrow> event list \<times> row" where
  "collection_row en c =
     (case describe_collection en c of
        Inl e \<Rightarrow> ([Call (DescribeCollection c)], (c, DescribeFailed e, unknown))
      | Inr d \<Rightarrow>
          (Call (DescribeCollection c) # fst (row_count en c),
           (c,
            Description (case d_description d of None \<Rightarrow> PStr [] | Some v \<Rightarrow> v),
            snd (row_count en c))))"

fun collection_rows :: "env \<Rightarrow> pystr list \<Rightarrow> event list \<times> row list" where
  "collection_rows en [] = ([], [])"
| "collection_rows en (c # cs) =
     (fst (collection_row en c) @ fst (collection_rows en cs),
      snd (collection_row en c) # snd (collection_rows en cs))"

text \<open>Lines 177-206.\<close>

definition list_mode :: "env \<Rightarrow> event list" where
  "list_mode en =
     Call ListCollections #
     (case list_collections en of
        Inl e \<Rightarrow> [Print (ListFailed e)]
      | Inr [] \<Rightarrow> [Print NoCollections]
      | Inr (c # cs) \<Rightarrow>
          Print CollectionListTitle # fst (collection_rows en (c # cs)) @
          [Print (Table (snd (collection_rows en (c # cs))))])"

section \<open>Showing one collection\<close>

text \<open>
  Lines 225-236: the names kept for the last block of a record and the output fields of
  the query. With \<open>--show_vectors\<close> both names of the source are bound to one list, so
  the \<open>append\<close> of line 236 reaches both.
\<close>

definition add_id :: "pystr option list \<Rightarrow> pystr option list" where
  "add_id output_fields =
     (if Some (py ''id'') \<notin> set output_fields then output_fields @ [Some (py ''id'')]
      else output_fields)"

definition select_fields :: "args \<Rightarrow> pystr option list \<Rightarrow> pystr option list \<times> pystr option list" where
  "select_fields a schema =
     (if show_vectors a then
        (add_id (filter (\<lambda>n. n \<noteq> Some (py ''id'')) schema),
         add_id (filter (\<lambda>n. n \<noteq> Some (py ''id'')) schema))
      else
        (filter (\<lambda>n. n \<notin> set [Some (py ''id''), Some (py ''embedding'')]) schema,
         add_id (filter
           (\<lambda>f. f \<in> set (filter (\<lambda>n. n \<notin> set [Some (py ''id''), Some (py ''embedding'')]) schema))
           [Some (py ''text''), Some (py ''reference''), Some (py ''metadata'')])))"

definition page_query :: "args \<Rightarrow> pystr \<Rightarrow> pystr option list \<Rightarrow> query_args" where
  "page_query a c output_fields =
     \<lparr>q_collection_name = c, q_filter = NoFilter, q_output_fields = output_fields,
      q_limit = limit a, q_offset = Some (offset a)\<rparr>"

definition query_failed :: "pyexn \<Rightarrow> event list" where
  "query_failed e = [Print (QueryFailed e), Print (QueryFailedKind e), PrintExc e]"

text \<open>Lines 220-302: the inner \<open>try\<close>.\<close>

definition show_page :: "env \<Rightarrow> args \<Rightarrow> pystr \<Rightarrow> describe_result \<Rightarrow> event list" where
  "show_page en a c d =
     (let schema = (case d_fields d of None \<Rightarrow> [] | Some fs \<Rightarrow> fs);
          field_names = fst (select_fields a schema);
          output_fields = snd (select_fields a schema)
      in if output_fields = [] then [Print NoFieldsWarning]
         else
           Call (Query (page_query a c output_fields)) #
           (case query en (page_query a c output_fields) of
              Inl e \<Rightarrow> query_failed e
            | Inr [] \<Rightarrow> [Print (NoData c)]
            | Inr (r # rs) \<Rightarrow>
                Print (DataRange (offset a + 1) (offset a + int (length (r # rs)))) #
                (case render_items en a field_names 0 (r # rs) of
                   (ls, None) \<Rightarrow> map Print ls
                 | (ls, Some e) \<Rightarrow> map Print ls @ query_failed e)))"

text \<open>Lines 209-304.\<close>

definition show_mode :: "env \<Rightarrow> args \<Rightarrow> pystr \<Rightarrow> event list" where
  "show_mode en a c =
     Call (HasCollection c) #
     (case has_collection en c of
        Inl e \<Rightarrow> [Print (InfoFailed e)]
      | Inr False \<Rightarrow> [Print (CollectionMissing c)]
      | Inr True \<Rightarrow>
          Call (DescribeCollection c) #
          (case describe_collection en c of
             Inl e \<Rightarrow> [Print (InfoFailed e)]
           | Inr d \<Rightarrow>
               Print (CollectionInfo c) #
               Print (DescriptionLine (case d_description d of None \<Rightarrow> PStr [26080] | Some v \<Rightarrow> v)) #
               show_page en a c d))"

section \<open>The program\<close>

text \<open>Lines 71-304: the three modes, once the client is connected.\<close>

definition dispatch :: "env \<Rightarrow> args \<Rightarrow> event list" where
  "dispatch en a =
     (if search a then search_mode en a
      else
        (case given (collection a) of
           None \<Rightarrow> list_mode en
         | Some c \<Rightarrow> show_mode en a c))"

text \<open>Lines 57-68, then the modes.\<close>

definition main :: "env \<Rightarrow> args \<Rightarrow> event list" where
  "main en a =
     (if \<not> path_exists en (uri a) then [Print (FileNotExist (uri a))]
      else
        Call (Connect (uri a) (token a) (db a)) #
        (case connect en (uri a) (token a) (db a) of
           Some e \<Rightarrow> [Print (ConnectFailed e)]
         | None \<Rightarrow> Print (Connected (uri a)) # dispatch en a))"

section \<open>Reading a run\<close>

text \<open>The client calls of a run that come before the first print of a given line.\<close>

fun calls_before :: "line \<Rightarrow> event list \<Rightarrow> client_call list" where
  "calls_before l [] = []"
| "calls_before l (Print l' # evs) = (if l' = l then [] else calls_before l evs)"
| "calls_before l (Call c # evs) = c # calls_before l evs"
| "calls_before l (PrintExc e # evs) = calls_before l evs"

text \<open>The arguments of the \<open>client.query\<close> calls of a run, in order.\<close>

fun queries :: "event list \<Rightarrow> query_args list" where
  "queries [] = []"
| "queries (Call (Query q) # evs) = q # queries evs"
| "queries (e # evs) = queries evs"

text \<open>The texts printed among the lines of a run.\<close>

primrec text_lines :: "line list \<Rightarrow> pyval list" where
  "text_lines [] = []"
| "text_lines (l # ls) = (case l of TextLine t \<Rightarrow> t # text_lines ls | _ \<Rightarrow> text_lines ls)"

section \<open>A sample database\<close>

text \<open>The defaults of the options (lines 19-53).\<close>

definition default_args :: args where
  "default_args =
     \<lparr>uri = py ''./milvus.db'', token = py ''root:Milvus'', db = py ''default'',
      collection = None, limit = 10, offset = 0, show_vectors = False, vector_preview = 5,
      search = False, search_text = None, search_vector = None, search_id = None, top_k = 5\<rparr>"

text \<open>
  A database file \<open>./milvus.db\<close> with three collections: \<open>docs\<close> holds two records,
  \<open>broken\<close> cannot be described and \<open>notes\<close> has no statistics.
\<close>

definition docs_db :: env where
  "docs_db =
     \<lparr>path_exists = (\<lambda>p. p = py ''./milvus.db''),
      connect = (\<lambda>u t d. None),
      has_collection = (\<lambda>c. Inr (c = py ''docs'')),
      list_collections = Inr [py ''docs'', py ''broken'', py ''notes''],
      describe_collection = (\<lambda>c.
        if c = py ''broken'' then Inl (ClientError (py ''no schema''))
        else Inr \<lparr>d_description = Some (PStr (py ''demo'')),
                  d_fields = Some [Some (py ''id''), Some (py ''text''), Some (py ''embedding'')]\<rparr>),
      get_collection_stats = Some (\<lambda>c.
        if c = py ''notes'' then Inl (ClientError (py ''no stats''))
        else Inr [(py ''row_count'', PInt 2)]),
      query = (\<lambda>q.
        case q_filter q of
          IdEquals i \<Rightarrow>
            if i = 1 then Inr [[(py ''embedding'', PList [PInt 1, PInt 2, PInt 3])]] else Inr []
        | NoFilter \<Rightarrow>
            Inr [[(py ''id'', PInt 1), (py ''text'', PStr (py ''first''))],
                 [(py ''id'', PInt 2), (py ''text'', PStr (py ''second''))]]),
      search_call = (\<lambda>s. Inr [[[(py ''score'', PInt 0), (py ''text'', PStr (py ''first''))]]]),
      json_loads = (\<lambda>s.
        if s = py ''[1, 2, 3]'' then Parsed (PList [PInt 1, PInt 2, PInt 3]) else JSONDecodeError),
      np_norm = (\<lambda>v. Inr 0)\<rparr>"

text \<open>
  The same database when the first record of \<open>docs\<close> holds \<open>None\<close> as its text, on
  which \<open>len\<close> raises.
\<close>

definition untyped_db :: env where
  "untyped_db =
     docs_db\<lparr>query := (\<lambda>q.
       Inr [[(py ''id'', PInt 1), (py ''text'', PNone)],
            [(py ''id'', PInt 2), (py ''text'', PStr (py ''second''))]])\<rparr>"

section \<open>Basic facts\<close>

lemma py_eq_iff [simp]: "py s = py t \<longleftrightarrow> s = t"
  by (simp add: py_def inj_of_char)

lemma py_empty [simp]: "py s = [] \<longleftrightarrow> s = []"
  by (simp add: py_def)

lemma length_py [simp]: "length (py s) = length s"
  by (simp add: py_def)

lemma seqs_single: "seqs [b] = b"
  by (cases b; cases "snd b") auto

lemma seqs_ok: "snd b = None \<Longrightarrow> seqs (b # bs) = (fst b @ fst (seqs bs), snd (seqs bs))"
  by (cases b) simp

lemma seqs_raise: "snd b = Some e \<Longrightarrow> seqs (b # bs) = (fst b, Some e)"
  by (cases b) simp

lemma shift_upt: "map f [0..<Suc n] = f 0 # map (\<lambda>i. f (Suc i)) [0..<n]"
  by (simp only: map_upt_Suc)

section \<open>The database file\<close>

text \<open>
  Claim C5: for every invocation whose database file path does not exist on disk, the
  tool terminates before any connection attempt and emits exactly one
  file-does-not-exist message. The whole run is that one printed line.
\<close>

theorem missing_file_stops_run:
  "\<not> path_exists en (uri a) \<Longrightarrow> main en a = [Print (FileNotExist (uri a))]"
  by (simp add: main_def)

text \<open>The sample database is asked for a file that is not there.\<close>

theorem missing_file_stops_run_witness:
  "\<not> path_exists docs_db (uri (default_args\<lparr>uri := py ''./other.db''\<rparr>)) \<and>
   main docs_db (default_args\<lparr>uri := py ''./other.db''\<rparr>) =
     [Print (FileNotExist (py ''./other.db''))]"
  using missing_file_stops_run [of docs_db "default_args\<lparr>uri := py ''./other.db''\<rparr>"]
  by (simp add: docs_db_def default_args_def)

section \<open>A search without a query\<close>

text \<open>
  Claim C1 says that a search with a collection name and none of \<open>search_id\<close>,
  \<open>search_vector\<close>, \<open>search_text\<close> reports the missing argument before any client call.
  On the sample database the report comes after two client calls: the connection
  (line 64) and \<open>has_collection\<close> (line 78).
\<close>

theorem missing_argument_follows_client_calls:
  "calls_before MissingSearchArgument
     (main docs_db (default_args\<lparr>search := True, collection := Some (py ''docs'')\<rparr>)) =
   [Connect (py ''./milvus.db'') (py ''root:Milvus'') (py ''default''),
    HasCollection (py ''docs'')]"
  by (simp add: main_def dispatch_def search_mode_def resolve_def docs_db_def default_args_def)

text \<open>
  Claim C1, amended: when the database file exists, the connection succeeds and the
  client confirms the collection, such a search reports the missing argument; the
  connection and one \<open>has_collection\<close> call are the only client calls of the run, and
  nothing else is printed after the connection message.
\<close>

theorem missing_argument_reported:
  assumes "path_exists en (uri a)" and "connect en (uri a) (token a) (db a) = None"
    and "search a" and "given (collection a) = Some c" and "has_collection en c = Inr True"
    and "search_id a = None" and "given (search_vector a) = None"
    and "given (search_text a) = None"
  shows "main en a =
    [Call (Connect (uri a) (token a) (db a)), Print (Connected (uri a)),
     Call (HasCollection c), Print MissingSearchArgument]"
  using assms by (simp add: main_def dispatch_def search_mode_def resolve_def)

theorem missing_argument_reported_witness:
  "main docs_db (default_args\<lparr>search := True, collection := Some (py ''docs'')\<rparr>) =
    [Call (Connect (py ''./milvus.db'') (py ''root:Milvus'') (py ''default'')),
     Print (Connected (py ''./milvus.db'')), Call (HasCollection (py ''docs'')),
     Print MissingSearchArgument]"
  using missing_argument_reported
    [of docs_db "default_args\<lparr>search := True, collection := Some (py ''docs'')\<rparr>" "py ''docs''"]
  by (simp add: docs_db_def default_args_def)

section \<open>The output fields of the paged read\<close>

lemma queries_append: "queries (xs @ ys) = queries xs @ queries ys"
  by (induction xs rule: queries.induct) simp_all

lemma queries_Print: "queries (map Print ls) = []"
  by (induction ls) simp_all

lemma queries_query_failed: "queries (query_failed e) = []"
  by (simp add: query_failed_def)

lemma queries_show_page:
  "queries (show_page en a c d) =
     (if snd (select_fields a (case d_fields d of None \<Rightarrow> [] | Some fs \<Rightarrow> fs)) = [] then []
      else [page_query a c
              (snd (select_fields a (case d_fields d of None \<Rightarrow> [] | Some fs \<Rightarrow> fs)))])"
  by (simp add: show_page_def Let_def queries_append queries_Print queries_query_failed
      split: sum.splits list.splits prod.splits option.splits)

lemma queries_show_mode:
  "queries (show_mode en a c) =
     (case has_collection en c of
        Inr True \<Rightarrow>
          (case describe_collection en c of
             Inr d \<Rightarrow> queries (show_page en a c d)
           | Inl e \<Rightarrow> [])
      | _ \<Rightarrow> [])"
  by (simp add: show_mode_def split: sum.splits bool.splits)

text \<open>
  Claim C2 says that with vector display the output fields of the read query are every
  schema field except the id field. On the sample collection, whose schema is \<open>id\<close>,
  \<open>text\<close>, \<open>embedding\<close>, the query asks for \<open>text\<close>, \<open>embedding\<close> and \<open>id\<close>: line 236
  appends the id field in both branches.
\<close>

theorem vector_display_queries_id_field:
  "map q_output_fields
     (queries (main docs_db
        (default_args\<lparr>collection := Some (py ''docs''), show_vectors := True\<rparr>))) =
   [[Some (py ''text''), Some (py ''embedding''), Some (py ''id'')]]"
  by (simp add: main_def dispatch_def queries_show_mode queries_show_page select_fields_def
      add_id_def page_query_def docs_db_def default_args_def)

text \<open>
  Claim C2, amended: in collection inspection with vector display, the run issues one
  read query, without a filter and bounded by the limit and the offset, whose output
  fields are every schema field except the id field, in schema order, followed by the
  id field.
\<close>

theorem vector_display_output_fields:
  assumes "path_exists en (uri a)" and "connect en (uri a) (token a) (db a) = None"
    and "\<not> search a" and "given (collection a) = Some c"
    and "has_collection en c = Inr True" and "describe_collection en c = Inr d"
    and "show_vectors a"
  shows "queries (main en a) =
    [\<lparr>q_collection_name = c, q_filter = NoFilter,
      q_output_fields =
        filter (\<lambda>n. n \<noteq> Some (py ''id'')) (case d_fields d of None \<Rightarrow> [] | Some fs \<Rightarrow> fs) @
        [Some (py ''id'')],
      q_limit = limit a, q_offset = Some (offset a)\<rparr>]"
  using assms
  by (simp add: main_def dispatch_def queries_show_mode queries_show_page select_fields_def
      add_id_def page_query_def)

theorem vector_display_output_fields_witness:
  "queries (main docs_db (default_args\<lparr>collection := Some (py ''docs''), show_vectors := True\<rparr>)) =
    [\<lparr>q_collection_name = py ''docs'', q_filter = NoFilter,
      q_output_fields = [Some (py ''text''), Some (py ''embedding''), Some (py ''id'')],
      q_limit = 10, q_offset = Some 0\<rparr>]"
  using vector_display_output_fields
    [of docs_db "default_args\<lparr>collection := Some (py ''docs''), show_vectors := True\<rparr>"
      "py ''docs''"
      "\<lparr>d_description = Some (PStr (py ''demo'')),
        d_fields = Some [Some (py ''id''), Some (py ''text''), Some (py ''embedding'')]\<rparr>"]
  by (simp add: docs_db_def default_args_def)

section \<open>The search call\<close>

lemma no_search_Print: "filter is_search (map Print ls) = []"
  by (induction ls) simp_all

lemma no_search_report_hits: "filter is_search (report_hits hits) = []"
  by (simp add: report_hits_def no_search_Print split: prod.splits option.splits)

lemma searches_run_search:
  "filter is_search (run_search en a c v) = [Call (Search (search_request a c v))]"
  by (simp add: run_search_def no_search_report_hits split: sum.splits list.splits)

lemma no_search_resolve: "filter is_search (fst (resolve en a c)) = []"
  by (simp add: resolve_def resolve_by_id_def resolve_by_vector_def
      split: option.splits sum.splits list.splits json_result.splits pyval.splits)

lemma searches_search_mode:
  "filter is_search (search_mode en a) =
     (case given (collection a) of
        None \<Rightarrow> []
      | Some c \<Rightarrow>
          (case has_collection en c of
             Inr True \<Rightarrow>
               (case snd (resolve en a c) of
                  None \<Rightarrow> []
                | Some v \<Rightarrow> [Call (Search (search_request a c v))])
           | _ \<Rightarrow> []))"
proof -
  have "filter is_search (case resolve en a c of (evs, None) \<Rightarrow> evs
          | (evs, Some v) \<Rightarrow> evs @ run_search en a c v) =
        (case snd (resolve en a c) of None \<Rightarrow> []
          | Some v \<Rightarrow> [Call (Search (search_request a c v))])" for c
    using no_search_resolve [of en a c]
    by (cases "resolve en a c") (simp add: searches_run_search split: option.splits)
  then show ?thesis
    by (simp add: search_mode_def split: option.splits sum.splits bool.splits)
qed

lemma no_search_collection_row: "filter is_search (fst (collection_row en c)) = []"
  by (simp add: collection_row_def row_count_def split: sum.splits option.splits)

lemma no_search_collection_rows: "filter is_search (fst (collection_rows en cs)) = []"
  by (induction cs) (simp_all add: no_search_collection_row)

lemma no_search_list_mode: "filter is_search (list_mode en) = []"
  by (simp add: list_mode_def no_search_collection_row no_search_collection_rows
      split: sum.splits list.splits)

lemma no_search_show_mode: "filter is_search (show_mode en a c) = []"
  by (simp add: show_mode_def show_page_def Let_def query_failed_def no_search_Print
      split: sum.splits list.splits bool.splits prod.splits option.splits)

lemma searches_main:
  "filter is_search (main en a) =
     (if search a \<and> path_exists en (uri a) \<and> connect en (uri a) (token a) (db a) = None
      then filter is_search (search_mode en a) else [])"
  by (simp add: main_def dispatch_def no_search_list_mode no_search_show_mode
      split: option.splits)

text \<open>
  Claim C6: once a query vector is resolved, the tool issues exactly one search call
  against the named collection's vector field with the resolved vector, the fixed L2
  distance metric, limit equal to \<open>top_k\<close>, and output fields exactly text, reference and
  metadata. The search calls of the whole run are that one call.
\<close>

theorem one_search_call:
  assumes "path_exists en (uri a)" and "connect en (uri a) (token a) (db a) = None"
    and "search a" and "given (collection a) = Some c" and "has_collection en c = Inr True"
    and "resolve en a c = (evs, Some v)"
  shows "filter is_search (main en a) =
    [Call (Search \<lparr>s_collection_name = c, s_data = [v], s_anns_field = py ''embedding'',
       s_param = [(py ''metric_type'', PStr (py ''L2''))], s_limit = top_k a,
       s_output_fields = [py ''text'', py ''reference'', py ''metadata'']\<rparr>)]"
  using assms by (simp add: searches_main searches_search_mode search_request_def)

text \<open>A search of the sample collection for the vector \<open>[1, 2, 3]\<close> with \<open>top_k\<close> 3.\<close>

theorem one_search_call_witness:
  "filter is_search
     (main docs_db (default_args\<lparr>search := True, collection := Some (py ''docs''),
        search_vector := Some (py ''[1, 2, 3]''), top_k := 3\<rparr>)) =
   [Call (Search \<lparr>s_collection_name = py ''docs'', s_data = [PList [PInt 1, PInt 2, PInt 3]],
      s_anns_field = py ''embedding'', s_param = [(py ''metric_type'', PStr (py ''L2''))],
      s_limit = 3, s_output_fields = [py ''text'', py ''reference'', py ''metadata'']\<rparr>)]"
  using one_search_call [of docs_db "default_args\<lparr>search := True, collection := Some (py ''docs''),
        search_vector := Some (py ''[1, 2, 3]''), top_k := 3\<rparr>" "py ''docs''"
        "[Print (UsingGivenVector 3)]" "PList [PInt 1, PInt 2, PInt 3]"]
  by (simp add: docs_db_def default_args_def resolve_def resolve_by_vector_def)

section \<open>Search by record id\<close>

text \<open>
  Claim C7: search by record id looks up the record with an equality filter on id and
  extracts its stored vector as the query vector; if no such record exists or the
  record has no vector field, the search fails with a clear message and no similarity
  search is issued. The lookup \<open>q\<close> asks for the field \<open>embedding\<close> of at most one record.
\<close>

theorem search_by_record_id:
  assumes "search_id a = Some i" and "given (collection a) = Some c"
    and "q = \<lparr>q_collection_name = c, q_filter = IdEquals i,
               q_output_fields = [Some (py ''embedding'')], q_limit = 1, q_offset = None\<rparr>"
  shows "(\<exists>l v. resolve en a c = ([Call (Query q), Print l], v)) \<and>
         (\<forall>r rs v. query en q = Inr (r # rs) \<and> map_of r (py ''embedding'') = Some v \<longrightarrow>
            resolve en a c = ([Call (Query q), Print (UsingIdVector i)], Some v)) \<and>
         (query en q = Inr [] \<or>
          (\<exists>r rs. query en q = Inr (r # rs) \<and> map_of r (py ''embedding'') = None) \<longrightarrow>
            resolve en a c = ([Call (Query q), Print (IdNotFound i)], None) \<and>
            filter is_search (main en a) = [])"
proof -
  have q: "id_lookup c i = q"
    by (simp add: id_lookup_def assms(3))
  have r: "resolve en a c = resolve_by_id en c i"
    using assms(1) by (simp add: resolve_def)
  have 1: "\<exists>l v. resolve en a c = ([Call (Query q), Print l], v)"
    by (simp add: r resolve_by_id_def q split: sum.splits list.splits option.splits)
  have 2: "\<forall>r rs v. query en q = Inr (r # rs) \<and> map_of r (py ''embedding'') = Some v \<longrightarrow>
            resolve en a c = ([Call (Query q), Print (UsingIdVector i)], Some v)"
    by (simp add: r resolve_by_id_def q)
  have 3: "resolve en a c = ([Call (Query q), Print (IdNotFound i)], None) \<and>
            filter is_search (main en a) = []"
    if "query en q = Inr [] \<or>
          (\<exists>r rs. query en q = Inr (r # rs) \<and> map_of r (py ''embedding'') = None)"
  proof -
    have n: "resolve en a c = ([Call (Query q), Print (IdNotFound i)], None)"
      using that by (auto simp add: r resolve_by_id_def q)
    then show ?thesis
      using assms(2)
      by (simp add: searches_main searches_search_mode split: sum.splits bool.splits)
  qed
  from 1 2 3 show ?thesis by blast
qed

text \<open>On the sample collection the record with id 1 has a vector and no record has id 7.\<close>

theorem search_by_record_id_witness:
  "resolve docs_db
     (default_args\<lparr>search := True, collection := Some (py ''docs''), search_id := Some 1\<rparr>)
     (py ''docs'') =
     ([Call (Query \<lparr>q_collection_name = py ''docs'', q_filter = IdEquals 1,
          q_output_fields = [Some (py ''embedding'')], q_limit = 1, q_offset = None\<rparr>),
       Print (UsingIdVector 1)], Some (PList [PInt 1, PInt 2, PInt 3])) \<and>
   resolve docs_db
     (default_args\<lparr>search := True, collection := Some (py ''docs''), search_id := Some 7\<rparr>)
     (py ''docs'') =
     ([Call (Query \<lparr>q_collection_name = py ''docs'', q_filter = IdEquals 7,
          q_output_fields = [Some (py ''embedding'')], q_limit = 1, q_offset = None\<rparr>),
       Print (IdNotFound 7)], None) \<and>
   filter is_search
     (main docs_db
        (default_args\<lparr>search := True, collection := Some (py ''docs''), search_id := Some 7\<rparr>)) = []"
  using
    search_by_record_id
      [of "default_args\<lparr>search := True, collection := Some (py ''docs''), search_id := Some 1\<rparr>"
        1 "py ''docs''" _ docs_db, OF _ _ refl]
    search_by_record_id
      [of "default_args\<lparr>search := True, collection := Some (py ''docs''), search_id := Some 7\<rparr>"
        7 "py ''docs''" _ docs_db, OF _ _ refl]
  by (simp add: docs_db_def default_args_def)

section \<open>The order of resolution\<close>

text \<open>A run reads the options \<open>search_vector\<close> and \<open>search_text\<close> only while it resolves.\<close>

lemma render_items_cong:
  assumes "offset b = offset a" and "show_vectors b = show_vectors a"
    and "vector_preview b = vector_preview a"
  shows "render_items en b names k rs = render_items en a names k rs"
proof -
  have vb: "vector_block en b = vector_block en a"
    unfolding vector_block_def fun_eq_iff assms by simp
  have ri: "render_item en b = render_item en a"
    unfolding render_item_def fun_eq_iff vb assms by simp
  show ?thesis
    by (induction rs arbitrary: k) (simp_all add: ri)
qed

lemma show_mode_cong:
  assumes "offset b = offset a" and "show_vectors b = show_vectors a"
    and "vector_preview b = vector_preview a" and "limit b = limit a"
  shows "show_mode en b = show_mode en a"
proof -
  have sf: "select_fields b = select_fields a"
    using assms(2) by (simp add: select_fields_def fun_eq_iff)
  have pq: "page_query b = page_query a"
    using assms(1,4) by (simp add: page_query_def fun_eq_iff)
  have ri: "render_items en b = render_items en a"
    using render_items_cong [OF assms(1-3)] by (simp add: fun_eq_iff)
  have sp: "show_page en b = show_page en a"
    unfolding show_page_def fun_eq_iff sf pq ri assms(1) by simp
  show ?thesis
    unfolding show_mode_def fun_eq_iff sp by simp
qed

lemma main_cong:
  assumes "resolve en b = resolve en a"
    and "uri b = uri a" and "token b = token a" and "db b = db a"
    and "collection b = collection a" and "search b = search a" and "top_k b = top_k a"
    and "offset b = offset a" and "show_vectors b = show_vectors a"
    and "vector_preview b = vector_preview a" and "limit b = limit a"
  shows "main en b = main en a"
proof -
  have rs: "run_search en b = run_search en a"
    unfolding run_search_def search_request_def fun_eq_iff assms(7) by simp
  have sm: "search_mode en b = search_mode en a"
    unfolding search_mode_def assms(1,5) rs ..
  have sh: "show_mode en b = show_mode en a"
    using assms(8-11) by (rule show_mode_cong)
  have d: "dispatch en b = dispatch en a"
    unfolding dispatch_def sm sh assms(5,6) ..
  show ?thesis
    unfolding main_def assms(2-4) d ..
qed

text \<open>
  Claim C3: in search mode the query vector is resolved from \<open>search_id\<close> when it is
  supplied, whatever \<open>search_vector\<close> and \<open>search_text\<close> are; else from \<open>search_vector\<close>
  when it is supplied, whatever \<open>search_text\<close> is; and a search with a text only fails
  with the not-implemented message and the hint at the two other modes, and issues no
  search. A string option is supplied when \<open>given\<close> finds it, as the source tests it.
\<close>

theorem resolution_priority:
  "(search_id a = Some i \<longrightarrow>
      resolve en a c = resolve_by_id en c i \<and>
      main en (a\<lparr>search_vector := sv, search_text := st\<rparr>) = main en a) \<and>
   (search_id a = None \<and> given (search_vector a) = Some s \<longrightarrow>
      resolve en a c = resolve_by_vector en s \<and>
      main en (a\<lparr>search_text := st\<rparr>) = main en a) \<and>
   (search_id a = None \<and> given (search_vector a) = None \<and> given (search_text a) = Some t \<longrightarrow>
      resolve en a c = ([Print TextNotImplemented, Print TextHint], None) \<and>
      filter is_search (main en a) = [] \<and>
      (path_exists en (uri a) \<and> connect en (uri a) (token a) (db a) = None \<and> search a \<and>
       given (collection a) = Some c \<and> has_collection en c = Inr True \<longrightarrow>
       main en a =
         [Call (Connect (uri a) (token a) (db a)), Print (Connected (uri a)),
          Call (HasCollection c), Print TextNotImplemented, Print TextHint]))"
proof -
  have 1: "resolve en a c = resolve_by_id en c i \<and>
      main en (a\<lparr>search_vector := sv, search_text := st\<rparr>) = main en a"
    if "search_id a = Some i"
  proof
    show "resolve en a c = resolve_by_id en c i"
      using that by (simp add: resolve_def)
    show "main en (a\<lparr>search_vector := sv, search_text := st\<rparr>) = main en a"
      using that by (intro main_cong) (simp_all add: resolve_def fun_eq_iff)
  qed
  have 2: "resolve en a c = resolve_by_vector en s \<and>
      main en (a\<lparr>search_text := st\<rparr>) = main en a"
    if "search_id a = None \<and> given (search_vector a) = Some s"
  proof
    show "resolve en a c = resolve_by_vector en s"
      using that by (simp add: resolve_def)
    show "main en (a\<lparr>search_text := st\<rparr>) = main en a"
      using that by (intro main_cong) (simp_all add: resolve_def fun_eq_iff)
  qed
  have 3: "resolve en a c = ([Print TextNotImplemented, Print TextHint], None) \<and>
      filter is_search (main en a) = [] \<and>
      (path_exists en (uri a) \<and> connect en (uri a) (token a) (db a) = None \<and> search a \<and>
       given (collection a) = Some c \<and> has_collection en c = Inr True \<longrightarrow>
       main en a =
         [Call (Connect (uri a) (token a) (db a)), Print (Connected (uri a)),
          Call (HasCollection c), Print TextNotImplemented, Print TextHint])"
    if h: "search_id a = None \<and> given (search_vector a) = None \<and> given (search_text a) = Some t"
  proof -
    have r: "resolve en a c' = ([Print TextNotImplemented, Print TextHint], None)" for c'
      using h by (simp add: resolve_def)
    have "filter is_search (main en a) = []"
      by (simp add: searches_main searches_search_mode r
          split: option.splits sum.splits bool.splits)
    moreover have "main en a =
         [Call (Connect (uri a) (token a) (db a)), Print (Connected (uri a)),
          Call (HasCollection c), Print TextNotImplemented, Print TextHint]"
      if "path_exists en (uri a) \<and> connect en (uri a) (token a) (db a) = None \<and> search a \<and>
       given (collection a) = Some c \<and> has_collection en c = Inr True"
      using that by (simp add: main_def dispatch_def search_mode_def r)
    ultimately show ?thesis using r by blast
  qed
  from 1 2 3 show ?thesis by blast
qed

text \<open>
  Three searches of the sample collection: by id 1 with a vector and a text beside it,
  by the vector \<open>[1, 2, 3]\<close> with a text beside it, and by a text alone.
\<close>

theorem resolution_priority_witness:
  "main docs_db
     (default_args\<lparr>search := True, collection := Some (py ''docs''), search_id := Some 1,
        search_vector := Some (py ''[4, 5, 6]''), search_text := Some (py ''hello'')\<rparr>) =
   main docs_db
     (default_args\<lparr>search := True, collection := Some (py ''docs''), search_id := Some 1\<rparr>) \<and>
   main docs_db
     (default_args\<lparr>search := True, collection := Some (py ''docs''),
        search_vector := Some (py ''[1, 2, 3]''), search_text := Some (py ''hello'')\<rparr>) =
   main docs_db
     (default_args\<lparr>search := True, collection := Some (py ''docs''),
        search_vector := Some (py ''[1, 2, 3]'')\<rparr>) \<and>
   main docs_db
     (default_args\<lparr>search := True, collection := Some (py ''docs''),
        search_text := Some (py ''hello'')\<rparr>) =
   [Call (Connect (py ''./milvus.db'') (py ''root:Milvus'') (py ''default'')),
    Print (Connected (py ''./milvus.db'')), Call (HasCollection (py ''docs'')),
    Print TextNotImplemented, Print TextHint]"
proof (intro conjI)
  show "main docs_db
     (default_args\<lparr>search := True, collection := Some (py ''docs''), search_id := Some 1,
        search_vector := Some (py ''[4, 5, 6]''), search_text := Some (py ''hello'')\<rparr>) =
   main docs_db
     (default_args\<lparr>search := True, collection := Some (py ''docs''), search_id := Some 1\<rparr>)"
    using resolution_priority
      [where a = "default_args\<lparr>search := True, collection := Some (py ''docs''),
                    search_id := Some 1\<rparr>"
        and i = 1 and en = docs_db and sv = "Some (py ''[4, 5, 6]'')"
        and st = "Some (py ''hello'')"]
    by (simp add: default_args_def)
  show "main docs_db
     (default_args\<lparr>search := True, collection := Some (py ''docs''),
        search_vector := Some (py ''[1, 2, 3]''), search_text := Some (py ''hello'')\<rparr>) =
   main docs_db
     (default_args\<lparr>search := True, collection := Some (py ''docs''),
        search_vector := Some (py ''[1, 2, 3]'')\<rparr>)"
    using resolution_priority
      [where a = "default_args\<lparr>search := True, collection := Some (py ''docs''),
                    search_vector := Some (py ''[1, 2, 3]'')\<rparr>"
        and s = "py ''[1, 2, 3]''" and en = docs_db and st = "Some (py ''hello'')"]
    by (simp add: default_args_def)
  show "main docs_db
     (default_args\<lparr>search := True, collection := Some (py ''docs''),
        search_text := Some (py ''hello'')\<rparr>) =
   [Call (Connect (py ''./milvus.db'') (py ''root:Milvus'') (py ''default'')),
    Print (Connected (py ''./milvus.db'')), Call (HasCollection (py ''docs'')),
    Print TextNotImplemented, Print TextHint]"
    using resolution_priority
      [where a = "default_args\<lparr>search := True, collection := Some (py ''docs''),
                    search_text := Some (py ''hello'')\<rparr>"
        and t = "py ''hello''" and en = docs_db and c = "py ''docs''"]
    by (simp add: docs_db_def default_args_def)
qed

section \<open>The table of collections\<close>

lemma rows_collection_rows:
  "snd (collection_rows en cs) = map (\<lambda>c. snd (collection_row en c)) cs"
  by (induction cs) simp_all

lemma list_mode_table:
  assumes "list_collections en = Inr cs" and "cs \<noteq> []"
  shows "list_mode en =
    Call ListCollections # Print CollectionListTitle # fst (collection_rows en cs) @
    [Print (Table (map (\<lambda>c. snd (collection_row en c)) cs))]"
proof -
  obtain c cs' where cs: "cs = c # cs'" using assms(2) by (cases cs) auto
  have "snd (collection_rows en (c # cs')) = map (\<lambda>c. snd (collection_row en c)) (c # cs')"
    by (rule rows_collection_rows)
  then show ?thesis
    using assms(1) by (simp add: list_mode_def cs)
qed

lemma main_list_mode:
  assumes "path_exists en (uri a)" and "connect en (uri a) (token a) (db a) = None"
    and "\<not> search a" and "given (collection a) = None"
  shows "main en a =
    Call (Connect (uri a) (token a) (db a)) # Print (Connected (uri a)) # list_mode en"
  using assms by (simp add: main_def dispatch_def)

lemma calls_collection_row: "\<exists>calls. fst (collection_row en c) = map Call calls"
proof (cases "describe_collection en c")
  case (Inl e)
  then have "fst (collection_row en c) = map Call [DescribeCollection c]"
    by (simp add: collection_row_def)
  then show ?thesis ..
next
  case (Inr d)
  have "\<exists>calls. fst (row_count en c) = map Call calls"
  proof (cases "fst (row_count en c) = []")
    case True
    then have "fst (row_count en c) = map Call []" by simp
    then show ?thesis ..
  next
    case False
    then have "fst (row_count en c) = map Call [GetCollectionStats c]"
      by (simp add: row_count_def split: option.splits sum.splits)
    then show ?thesis ..
  qed
  then obtain calls where "fst (row_count en c) = map Call calls" ..
  with Inr have "fst (collection_row en c) = map Call (DescribeCollection c # calls)"
    by (simp add: collection_row_def)
  then show ?thesis ..
qed

lemma calls_collection_rows: "\<exists>calls. fst (collection_rows en cs) = map Call calls"
proof (induction cs)
  case Nil
  have "fst (collection_rows en []) = map Call []" by simp
  then show ?case ..
next
  case (Cons c cs)
  from calls_collection_row obtain xs where "fst (collection_row en c) = map Call xs" ..
  moreover from Cons obtain ys where "fst (collection_rows en cs) = map Call ys" ..
  ultimately have "fst (collection_rows en (c # cs)) = map Call (xs @ ys)" by simp
  then show ?case ..
qed

lemma main_table:
  assumes "path_exists en (uri a)" and "connect en (uri a) (token a) (db a) = None"
    and "\<not> search a" and "given (collection a) = None"
    and "list_collections en = Inr cs" and "cs \<noteq> []"
  shows "\<exists>calls. main en a =
      [Call (Connect (uri a) (token a) (db a)), Print (Connected (uri a)),
       Call ListCollections, Print CollectionListTitle] @ map Call calls @
      [Print (Table (map (\<lambda>c. snd (collection_row en c)) cs))]"
proof -
  from calls_collection_rows obtain calls where "fst (collection_rows en cs) = map Call calls" ..
  then have "main en a =
      [Call (Connect (uri a) (token a) (db a)), Print (Connected (uri a)),
       Call ListCollections, Print CollectionListTitle] @ map Call calls @
      [Print (Table (map (\<lambda>c. snd (collection_row en c)) cs))]"
    by (simp add: main_list_mode [OF assms(1-4)] list_mode_table [OF assms(5,6)])
  then show ?thesis ..
qed

lemma fst_collection_row: "fst (snd (collection_row en c)) = c"
  by (simp add: collection_row_def split: sum.splits)

text \<open>
  Claim C8: during collection listing, a row-count retrieval failure for any one
  collection is swallowed and that collection's count renders as the "unknown"
  sentinel, while the remaining collections' rows still appear in the listing. Between
  the title and the table the run only calls the client and prints nothing; the table
  has one row per collection, in order; the row of the collection whose statistics
  fail holds its description and the sentinel, and every row is the one its own
  collection yields.
\<close>

theorem row_count_failure_degrades:
  assumes "path_exists en (uri a)" and "connect en (uri a) (token a) (db a) = None"
    and "\<not> search a" and "given (collection a) = None"
    and "list_collections en = Inr cs" and "k < length cs"
    and "describe_collection en (cs ! k) = Inr d"
    and "get_collection_stats en = Some stats_of" and "stats_of (cs ! k) = Inl e"
  shows "\<exists>calls rows.
    main en a =
      [Call (Connect (uri a) (token a) (db a)), Print (Connected (uri a)),
       Call ListCollections, Print CollectionListTitle] @ map Call calls @
      [Print (Table rows)] \<and>
    map fst rows = cs \<and>
    rows ! k =
      (cs ! k, Description (case d_description d of None \<Rightarrow> PStr [] | Some v \<Rightarrow> v), unknown) \<and>
    (\<forall>j<length cs. rows ! j = snd (collection_row en (cs ! j)))"
proof -
  let ?rows = "map (\<lambda>c. snd (collection_row en c)) cs"
  have ne: "cs \<noteq> []" using assms(6) by auto
  from main_table [OF assms(1-5) ne] obtain calls where m: "main en a =
      [Call (Connect (uri a) (token a) (db a)), Print (Connected (uri a)),
       Call ListCollections, Print CollectionListTitle] @ map Call calls @
      [Print (Table ?rows)]" ..
  have f: "map fst ?rows = cs"
    by (simp add: comp_def fst_collection_row)
  have r: "?rows ! k =
      (cs ! k, Description (case d_description d of None \<Rightarrow> PStr [] | Some v \<Rightarrow> v), unknown)"
    using assms(6-9) by (simp add: collection_row_def row_count_def)
  have "\<forall>j<length cs. ?rows ! j = snd (collection_row en (cs ! j))" by simp
  with m f r show ?thesis by blast
qed

text \<open>In the sample database the statistics of the third collection fail.\<close>

theorem row_count_failure_degrades_witness:
  "\<exists>calls rows.
     main docs_db default_args =
       [Call (Connect (py ''./milvus.db'') (py ''root:Milvus'') (py ''default'')),
        Print (Connected (py ''./milvus.db'')), Call ListCollections,
        Print CollectionListTitle] @ map Call calls @ [Print (Table rows)] \<and>
     map fst rows = [py ''docs'', py ''broken'', py ''notes''] \<and>
     rows ! 2 = (py ''notes'', Description (PStr (py ''demo'')), unknown)"
proof -
  have "\<exists>calls rows.
     main docs_db default_args =
       [Call (Connect (uri default_args) (token default_args) (db default_args)),
        Print (Connected (uri default_args)), Call ListCollections,
        Print CollectionListTitle] @ map Call calls @ [Print (Table rows)] \<and>
     map fst rows = [py ''docs'', py ''broken'', py ''notes''] \<and>
     rows ! 2 =
       ([py ''docs'', py ''broken'', py ''notes''] ! 2,
        Description (case d_description
           \<lparr>d_description = Some (PStr (py ''demo'')),
            d_fields = Some [Some (py ''id''), Some (py ''text''), Some (py ''embedding'')]\<rparr>
          of None \<Rightarrow> PStr [] | Some v \<Rightarrow> v), unknown) \<and>
     (\<forall>j<length [py ''docs'', py ''broken'', py ''notes''].
        rows ! j = snd (collection_row docs_db ([py ''docs'', py ''broken'', py ''notes''] ! j)))"
    by (rule row_count_failure_degrades
        [where stats_of = "\<lambda>c. if c = py ''notes'' then Inl (ClientError (py ''no stats''))
                                else Inr [(py ''row_count'', PInt 2)]"
          and e = "ClientError (py ''no stats'')"])
      (simp_all add: docs_db_def default_args_def)
  then show ?thesis by (auto simp add: default_args_def)
qed

text \<open>
  Claim C10: during collection listing, if \<open>describe_collection\<close> fails for one
  collection, that collection still appears as a row in the table with an error text
  in its description column and the "unknown" sentinel as its count, and the listing
  of the remaining collections continues.
\<close>

theorem describe_failure_keeps_row:
  assumes "path_exists en (uri a)" and "connect en (uri a) (token a) (db a) = None"
    and "\<not> search a" and "given (collection a) = None"
    and "list_collections en = Inr cs" and "k < length cs"
    and "describe_collection en (cs ! k) = Inl e"
  shows "\<exists>calls rows.
    main en a =
      [Call (Connect (uri a) (token a) (db a)), Print (Connected (uri a)),
       Call ListCollections, Print CollectionListTitle] @ map Call calls @
      [Print (Table rows)] \<and>
    map fst rows = cs \<and>
    rows ! k = (cs ! k, DescribeFailed e, unknown) \<and>
    (\<forall>j<length cs. rows ! j = snd (collection_row en (cs ! j)))"
proof -
  let ?rows = "map (\<lambda>c. snd (collection_row en c)) cs"
  have ne: "cs \<noteq> []" using assms(6) by auto
  from main_table [OF assms(1-5) ne] obtain calls where m: "main en a =
      [Call (Connect (uri a) (token a) (db a)), Print (Connected (uri a)),
       Call ListCollections, Print CollectionListTitle] @ map Call calls @
      [Print (Table ?rows)]" ..
  have f: "map fst ?rows = cs"
    by (simp add: comp_def fst_collection_row)
  have r: "?rows ! k = (cs ! k, DescribeFailed e, unknown)"
    using assms(6,7) by (simp add: collection_row_def)
  have "\<forall>j<length cs. ?rows ! j = snd (collection_row en (cs ! j))" by simp
  with m f r show ?thesis by blast
qed

text \<open>In the sample database the second collection cannot be described.\<close>

theorem describe_failure_keeps_row_witness:
  "\<exists>calls rows.
     main docs_db default_args =
       [Call (Connect (py ''./milvus.db'') (py ''root:Milvus'') (py ''default'')),
        Print (Connected (py ''./milvus.db'')), Call ListCollections,
        Print CollectionListTitle] @ map Call calls @ [Print (Table rows)] \<and>
     map fst rows = [py ''docs'', py ''broken'', py ''notes''] \<and>
     rows ! 1 = (py ''broken'', DescribeFailed (ClientError (py ''no schema'')), unknown)"
proof -
  have "\<exists>calls rows.
     main docs_db default_args =
       [Call (Connect (uri default_args) (token default_args) (db default_args)),
        Print (Connected (uri default_args)), Call ListCollections,
        Print CollectionListTitle] @ map Call calls @ [Print (Table rows)] \<and>
     map fst rows = [py ''docs'', py ''broken'', py ''notes''] \<and>
     rows ! 1 =
       ([py ''docs'', py ''broken'', py ''notes''] ! 1,
        DescribeFailed (ClientError (py ''no schema'')), unknown) \<and>
     (\<forall>j<length [py ''docs'', py ''broken'', py ''notes''].
        rows ! j = snd (collection_row docs_db ([py ''docs'', py ''broken'', py ''notes''] ! j)))"
    by (rule describe_failure_keeps_row) (simp_all add: docs_db_def default_args_def)
  then show ?thesis by (auto simp add: default_args_def)
qed

section \<open>The text of a record\<close>

lemma text_lines_append: "text_lines (xs @ ys) = text_lines xs @ text_lines ys"
  by (induction xs) (simp_all split: line.splits)

lemma id_block_ok: "snd (id_block r) = None"
  by (simp add: id_block_def split: option.splits)

lemma text_block_str:
  "map_of r (py ''text'') = Some (PStr t) \<Longrightarrow>
   text_block r = ([TextLine (PStr (if length t \<le> 100 then t else take 97 t @ py ''...''))], None)"
  by (simp add: text_block_def shorten_def)

lemma no_text_id_block: "text_lines (fst (id_block r)) = []"
  by (simp add: id_block_def split: option.splits)

lemma no_text_reference_block: "text_lines (fst (reference_block r)) = []"
  by (simp add: reference_block_def split: option.splits)

lemma no_text_entries: "text_lines (map (\<lambda>(k, v). MetadataEntry k v) d) = []"
  by (induction d) auto

lemma no_text_metadata_block: "text_lines (fst (metadata_block r)) = []"
  by (simp add: metadata_block_def no_text_entries split: option.splits pyval.splits)

lemma no_text_vector_block: "text_lines (fst (vector_block en a r)) = []"
  by (simp add: vector_block_def split: option.splits pyval.splits sum.splits)

lemma no_text_other_field: "text_lines (other_field r n) = []"
  by (cases n; cases "the n \<in> set reserved"; cases "map_of r (the n)") simp_all

lemma no_text_other_fields: "text_lines (fst (other_fields names r)) = []"
  by (induction names) (simp_all add: other_fields_def text_lines_append no_text_other_field)

lemma no_text_seqs:
  "(\<And>b. b \<in> set bs \<Longrightarrow> text_lines (fst b) = []) \<Longrightarrow> text_lines (fst (seqs bs)) = []"
proof (induction bs)
  case Nil
  then show ?case by simp
next
  case (Cons b bs)
  then show ?case
    by (cases "snd b") (simp_all add: seqs_ok seqs_raise text_lines_append)
qed

lemma no_text_rest:
  "text_lines (fst (seqs [reference_block r, metadata_block r, vector_block en a r,
     other_fields names r])) = []"
  by (rule no_text_seqs)
    (auto simp add: no_text_reference_block no_text_metadata_block no_text_vector_block
      no_text_other_fields)

lemma no_text_hit_rest:
  "text_lines (fst (seqs [reference_block r, metadata_block r, id_block r])) = []"
  by (rule no_text_seqs)
    (auto simp add: no_text_reference_block no_text_metadata_block no_text_id_block)

text \<open>
  Claim C4: for every rendered text field, in the paged-read path and in the search-hit
  path, a text of at most 100 characters is printed unchanged, and a longer text is
  rendered as its first 97 characters followed by the 3-character ellipsis, 100
  characters in all. A record of a page always reaches its text; a hit reaches it when
  its header was printed.
\<close>

theorem text_truncation:
  assumes "map_of r (py ''text'') = Some (PStr t)"
  shows "shorten (PStr t) = Inr (PStr (if length t \<le> 100 then t else take 97 t @ py ''...'')) \<and>
    (100 < length t \<longrightarrow> length (take 97 t @ py ''...'') = 100) \<and>
    text_lines (fst (render_item en a names i r)) =
      [PStr (if length t \<le> 100 then t else take 97 t @ py ''...'')] \<and>
    (snd (hit_header i r) = None \<longrightarrow>
     text_lines (fst (render_hit i r)) =
       [PStr (if length t \<le> 100 then t else take 97 t @ py ''...'')])"
proof -
  have 1: "shorten (PStr t) = Inr (PStr (if length t \<le> 100 then t else take 97 t @ py ''...''))"
    by (simp add: shorten_def)
  have 2: "100 < length t \<longrightarrow> length (take 97 t @ py ''...'') = 100"
    by simp
  have 3: "text_lines (fst (render_item en a names i r)) =
      [PStr (if length t \<le> 100 then t else take 97 t @ py ''...'')]"
    by (simp add: render_item_def seqs_ok id_block_ok text_block_str [OF assms]
        text_lines_append no_text_id_block no_text_rest)
  have 4: "text_lines (fst (render_hit i r)) =
       [PStr (if length t \<le> 100 then t else take 97 t @ py ''...'')]"
    if h: "snd (hit_header i r) = None"
  proof -
    have "text_lines (fst (hit_header i r)) = []"
      by (simp add: hit_header_def split: option.splits)
    then show ?thesis
      by (simp add: render_hit_def seqs_ok h text_block_str [OF assms]
          text_lines_append no_text_hit_rest)
  qed
  from 1 2 3 4 show ?thesis by blast
qed

text \<open>A hit whose text is 101 times the letter x, and one whose text is 100 times.\<close>

theorem text_truncation_witness:
  "text_lines (fst (render_hit 0
      [(py ''score'', PInt 0), (py ''text'', PStr (replicate 101 120))])) =
     [PStr (replicate 97 120 @ py ''...'')] \<and>
   text_lines (fst (render_item docs_db default_args [] 0
      [(py ''text'', PStr (replicate 101 120))])) =
     [PStr (replicate 97 120 @ py ''...'')] \<and>
   length (replicate 97 (120::nat) @ py ''...'') = 100 \<and>
   text_lines (fst (render_hit 0
      [(py ''score'', PInt 0), (py ''text'', PStr (replicate 100 120))])) =
     [PStr (replicate 100 120)]"
  using
    text_truncation [of "[(py ''score'', PInt 0), (py ''text'', PStr (replicate 101 120))]"
      "replicate 101 120" docs_db default_args "[]" 0]
    text_truncation [of "[(py ''text'', PStr (replicate 101 120))]"
      "replicate 101 120" docs_db default_args "[]" 0]
    text_truncation [of "[(py ''score'', PInt 0), (py ''text'', PStr (replicate 100 120))]"
      "replicate 100 120" docs_db default_args "[]" 0]
  by (simp add: hit_header_def)

section \<open>The numbering of a page\<close>

lemma render_item_starts:
  "fst (render_item en a names i r) =
     DataHeader (offset a + int i + 1) # tl (fst (render_item en a names i r))"
  by (simp add: render_item_def seqs_ok)

lemma render_items_complete:
  "snd (render_items en a names k rs) = None \<Longrightarrow>
   (\<forall>i<length rs. snd (render_item en a names (k + i) (rs ! i)) = None) \<and>
   fst (render_items en a names k rs) =
     concat (map (\<lambda>i. fst (render_item en a names (k + i) (rs ! i))) [0..<length rs])"
proof (induction rs arbitrary: k)
  case Nil
  then show ?case by simp
next
  case (Cons r rs)
  have h: "snd (render_item en a names k r) = None"
  proof (cases "snd (render_item en a names k r)")
    case None
    then show ?thesis .
  next
    case (Some e)
    then show ?thesis using Cons.prems by (simp add: seqs_raise)
  qed
  then have t: "snd (render_items en a names (Suc k) rs) = None"
    using Cons.prems by (simp add: seqs_ok seqs_single)
  note ih = Cons.IH [OF t]
  have 1: "snd (render_item en a names (k + i) ((r # rs) ! i)) = None"
    if "i < length (r # rs)" for i
  proof (cases i)
    case 0
    then show ?thesis using h by simp
  next
    case (Suc i')
    then show ?thesis using ih that by simp
  qed
  have "map (\<lambda>i. fst (render_item en a names (k + i) ((r # rs) ! i))) [0..<length (r # rs)] =
     fst (render_item en a names k r) #
     map (\<lambda>i. fst (render_item en a names (Suc k + i) (rs ! i))) [0..<length rs]"
    by (simp add: shift_upt del: upt_Suc)
  then have 2: "fst (render_items en a names k (r # rs)) =
     concat (map (\<lambda>i. fst (render_item en a names (k + i) ((r # rs) ! i)))
       [0..<length (r # rs)])"
    using ih h by (simp add: seqs_ok seqs_single del: upt_Suc)
  from 1 2 show ?case by blast
qed

lemma render_items_raise:
  "snd (render_items en a names k rs) = Some e \<Longrightarrow>
   \<exists>j<length rs.
     (\<forall>i<j. snd (render_item en a names (k + i) (rs ! i)) = None) \<and>
     snd (render_item en a names (k + j) (rs ! j)) = Some e \<and>
     fst (render_items en a names k rs) =
       concat (map (\<lambda>i. fst (render_item en a names (k + i) (rs ! i))) [0..<Suc j])"
proof (induction rs arbitrary: k)
  case Nil
  then show ?case by simp
next
  case (Cons r rs)
  show ?case
  proof (cases "snd (render_item en a names k r)")
    case (Some e')
    then have "render_items en a names k (r # rs) = (fst (render_item en a names k r), Some e')"
      by (simp add: seqs_raise)
    with Cons.prems Some have
      "snd (render_item en a names (k + 0) ((r # rs) ! 0)) = Some e"
      "fst (render_items en a names k (r # rs)) =
         concat (map (\<lambda>i. fst (render_item en a names (k + i) ((r # rs) ! i))) [0..<Suc 0])"
      by simp_all
    moreover have "\<forall>i<0::nat. snd (render_item en a names (k + i) ((r # rs) ! i)) = None"
      by simp
    moreover have "0 < length (r # rs)" by simp
    ultimately show ?thesis by (intro exI [of _ 0] conjI)
  next
    case None
    then have s: "render_items en a names k (r # rs) =
        (fst (render_item en a names k r) @ fst (render_items en a names (Suc k) rs),
         snd (render_items en a names (Suc k) rs))"
      by (simp add: seqs_ok seqs_single)
    with Cons.prems have t: "snd (render_items en a names (Suc k) rs) = Some e" by simp
    from Cons.IH [OF t] obtain j where j: "j < length rs"
      "\<forall>i<j. snd (render_item en a names (Suc k + i) (rs ! i)) = None"
      "snd (render_item en a names (Suc k + j) (rs ! j)) = Some e"
      "fst (render_items en a names (Suc k) rs) =
         concat (map (\<lambda>i. fst (render_item en a names (Suc k + i) (rs ! i))) [0..<Suc j])"
      by (elim exE conjE)
    have 1: "snd (render_item en a names (k + i) ((r # rs) ! i)) = None" if "i < Suc j" for i
    proof (cases i)
      case 0
      then show ?thesis using None by simp
    next
      case (Suc i')
      then show ?thesis using j(2) that by simp
    qed
    have 2: "snd (render_item en a names (k + Suc j) ((r # rs) ! Suc j)) = Some e"
      using j(3) by simp
    have "map (\<lambda>i. fst (render_item en a names (k + i) ((r # rs) ! i))) [0..<Suc (Suc j)] =
       fst (render_item en a names k r) #
       map (\<lambda>i. fst (render_item en a names (Suc k + i) (rs ! i))) [0..<Suc j]"
      by (simp add: shift_upt del: upt_Suc)
    then have 3: "fst (render_items en a names k (r # rs)) =
       concat (map (\<lambda>i. fst (render_item en a names (k + i) ((r # rs) ! i))) [0..<Suc (Suc j)])"
      using s j(4) by (simp del: upt_Suc)
    have "Suc j < length (r # rs)" using j(1) by simp
    with 1 2 3 show ?thesis by (intro exI [of _ "Suc j"] conjI allI impI)
  qed
qed

lemma numbered_lines:
  "concat (map (\<lambda>i. fst (render_item en a names (0 + i) (rs ! i))) xs) =
   concat (map (\<lambda>i. DataHeader (offset a + int i + 1) #
                    tl (fst (render_item en a names i (rs ! i)))) xs)"
proof -
  have "(\<lambda>i. fst (render_item en a names (0 + i) (rs ! i))) =
        (\<lambda>i. DataHeader (offset a + int i + 1) # tl (fst (render_item en a names i (rs ! i))))"
    using render_item_starts [of en a names] by (simp add: fun_eq_iff)
  then show ?thesis by simp
qed

lemma add_id_nonempty: "add_id xs \<noteq> []"
  by (auto simp add: add_id_def)

lemma output_fields_nonempty: "snd (select_fields a schema) \<noteq> []"
  by (simp add: select_fields_def add_id_nonempty)

lemma show_page_lines:
  assumes "query en (page_query a c
             (snd (select_fields a (case d_fields d of None \<Rightarrow> [] | Some fs \<Rightarrow> fs)))) = Inr rs"
    and "rs \<noteq> []"
  shows "show_page en a c d =
      Call (Query (page_query a c
        (snd (select_fields a (case d_fields d of None \<Rightarrow> [] | Some fs \<Rightarrow> fs))))) #
      Print (DataRange (offset a + 1) (offset a + int (length rs))) #
      map Print (fst (render_items en a
        (fst (select_fields a (case d_fields d of None \<Rightarrow> [] | Some fs \<Rightarrow> fs))) 0 rs)) @
      (case snd (render_items en a
        (fst (select_fields a (case d_fields d of None \<Rightarrow> [] | Some fs \<Rightarrow> fs))) 0 rs) of
         None \<Rightarrow> [] | Some e \<Rightarrow> query_failed e)"
proof -
  let ?names = "fst (select_fields a (case d_fields d of None \<Rightarrow> [] | Some fs \<Rightarrow> fs))"
  let ?out = "render_items en a ?names 0 rs"
  obtain r rs' where rs: "rs = r # rs'" using assms(2) by (cases rs) auto
  have "(case ?out of (ls, None) \<Rightarrow> map Print ls
          | (ls, Some e) \<Rightarrow> map Print ls @ query_failed e) =
      map Print (fst ?out) @ (case snd ?out of None \<Rightarrow> [] | Some e \<Rightarrow> query_failed e)"
    by (cases ?out; cases "snd ?out") auto
  then show ?thesis
    using assms(1) unfolding rs
    by (simp add: show_page_def Let_def output_fields_nonempty del: render_items.simps)
qed

text \<open>
  Claim C9 says that for every result list of length \<open>n\<close> read at offset \<open>o\<close> the record
  \<open>i\<close> is rendered with the header \<open>o + i + 1\<close>. On a page of two records read at offset
  4 whose first record holds \<open>None\<close> as its text, the summary line reports 5 to 6, the
  first record is printed under the header 5 up to its text, where \<open>len\<close> raises, the
  handler of line 298 reports the failure, and the second record is never rendered.
\<close>

theorem page_stops_at_raising_record:
  "main untyped_db (default_args\<lparr>collection := Some (py ''docs''), offset := 4\<rparr>) =
   [Call (Connect (py ''./milvus.db'') (py ''root:Milvus'') (py ''default'')),
    Print (Connected (py ''./milvus.db'')),
    Call (HasCollection (py ''docs'')), Call (DescribeCollection (py ''docs'')),
    Print (CollectionInfo (py ''docs'')), Print (DescriptionLine (PStr (py ''demo''))),
    Call (Query \<lparr>q_collection_name = py ''docs'', q_filter = NoFilter,
       q_output_fields = [Some (py ''text''), Some (py ''id'')], q_limit = 10,
       q_offset = Some 4\<rparr>),
    Print (DataRange 5 6),
    Print (DataHeader 5), Print (IdLine (PInt 1)),
    Print (QueryFailed Fault), Print (QueryFailedKind Fault), PrintExc Fault]"
  by (simp add: main_def dispatch_def show_mode_def show_page_def select_fields_def add_id_def
      page_query_def query_failed_def render_item_def id_block_def text_block_def shorten_def
      untyped_db_def docs_db_def default_args_def)

text \<open>
  Claim C9, amended: in the paged-read path, for every non-empty result list of length
  \<open>n\<close> read at offset \<open>o\<close>, the summary line reports the range \<open>o + 1\<close> to \<open>o + n\<close>, and
  the records are rendered in order, record \<open>i\<close> under the header \<open>o + i + 1\<close>, up to
  and including the first record whose rendering raises; none is rendered after it,
  and the failure lines follow. When no record raises all \<open>n\<close> records are rendered
  and nothing follows them. Here \<open>m\<close> is the number of records rendered, and the lines
  of a record after its header are those it printed, up to the exception if it raised.
\<close>

theorem page_numbering:
  assumes "query en (page_query a c
             (snd (select_fields a (case d_fields d of None \<Rightarrow> [] | Some fs \<Rightarrow> fs)))) = Inr rs"
    and "rs \<noteq> []"
  shows "\<exists>q names m rest.
    show_page en a c d =
      Call (Query q) # Print (DataRange (offset a + 1) (offset a + int (length rs))) #
      map Print (concat (map (\<lambda>i. DataHeader (offset a + int i + 1) #
                                  tl (fst (render_item en a names i (rs ! i)))) [0..<m])) @
      rest \<and>
    0 < m \<and> m \<le> length rs \<and>
    (\<forall>i<m - 1. snd (render_item en a names i (rs ! i)) = None) \<and>
    (case snd (render_item en a names (m - 1) (rs ! (m - 1))) of
       None \<Rightarrow> m = length rs \<and> rest = []
     | Some e \<Rightarrow> rest = [Print (QueryFailed e), Print (QueryFailedKind e), PrintExc e])"
proof -
  let ?names = "fst (select_fields a (case d_fields d of None \<Rightarrow> [] | Some fs \<Rightarrow> fs))"
  let ?q = "page_query a c
    (snd (select_fields a (case d_fields d of None \<Rightarrow> [] | Some fs \<Rightarrow> fs)))"
  let ?out = "render_items en a ?names 0 rs"
  let ?shown = "\<lambda>m. concat (map (\<lambda>i. DataHeader (offset a + int i + 1) #
      tl (fst (render_item en a ?names i (rs ! i)))) [0..<m])"
  note p = show_page_lines [OF assms]
  show ?thesis
  proof (cases "snd ?out")
    case None
    from render_items_complete [OF None]
    have ok: "\<forall>i<length rs. snd (render_item en a ?names i (rs ! i)) = None"
      and ls: "fst ?out =
        concat (map (\<lambda>i. fst (render_item en a ?names (0 + i) (rs ! i))) [0..<length rs])"
      by simp_all
    have 1: "show_page en a c d =
        Call (Query ?q) # Print (DataRange (offset a + 1) (offset a + int (length rs))) #
        map Print (?shown (length rs)) @ []"
      unfolding p ls numbered_lines None by simp
    have 2: "0 < length rs" using assms(2) by simp
    have 3: "\<forall>i<length rs - 1. snd (render_item en a ?names i (rs ! i)) = None"
      using ok by simp
    have "snd (render_item en a ?names (length rs - 1) (rs ! (length rs - 1))) = None"
      using ok 2 by simp
    then have 4: "case snd (render_item en a ?names (length rs - 1) (rs ! (length rs - 1))) of
       None \<Rightarrow> length rs = length rs \<and> ([]::event list) = []
     | Some e \<Rightarrow> ([]::event list) = [Print (QueryFailed e), Print (QueryFailedKind e), PrintExc e]"
      by simp
    from 1 2 3 4 show ?thesis
      by (intro exI [of _ ?q] exI [of _ ?names] exI [of _ "length rs"] exI [of _ "[]"] conjI)
        simp_all
  next
    case (Some e)
    from render_items_raise [OF Some] obtain j where j: "j < length rs"
      "\<forall>i<j. snd (render_item en a ?names (0 + i) (rs ! i)) = None"
      "snd (render_item en a ?names (0 + j) (rs ! j)) = Some e"
      "fst ?out =
        concat (map (\<lambda>i. fst (render_item en a ?names (0 + i) (rs ! i))) [0..<Suc j])"
      by (elim exE conjE)
    have 1: "show_page en a c d =
        Call (Query ?q) # Print (DataRange (offset a + 1) (offset a + int (length rs))) #
        map Print (?shown (Suc j)) @ query_failed e"
      unfolding p j(4) numbered_lines Some by simp
    have 2: "Suc j \<le> length rs" using j(1) by simp
    have 3: "\<forall>i<Suc j - 1. snd (render_item en a ?names i (rs ! i)) = None"
      using j(2) by simp
    have 4: "case snd (render_item en a ?names (Suc j - 1) (rs ! (Suc j - 1))) of
       None \<Rightarrow> Suc j = length rs \<and> query_failed e = []
     | Some e' \<Rightarrow> query_failed e =
         [Print (QueryFailed e'), Print (QueryFailedKind e'), PrintExc e']"
      using j(3) by (simp add: query_failed_def)
    from 1 2 3 4 show ?thesis
      by (intro exI [of _ ?q] exI [of _ ?names] exI [of _ "Suc j"] exI [of _ "query_failed e"]
          conjI) simp_all
  qed
qed

text \<open>
  The first page of the sample collection read at offset 20, where both records are
  rendered, and the page with the untyped text read at offset 4, where one is.
\<close>

theorem page_numbering_witness:
  "(\<exists>q. show_page docs_db (default_args\<lparr>collection := Some (py ''docs''), offset := 20\<rparr>)
       (py ''docs'')
       \<lparr>d_description = Some (PStr (py ''demo'')),
        d_fields = Some [Some (py ''id''), Some (py ''text''), Some (py ''embedding'')]\<rparr> =
     Call (Query q) # Print (DataRange 21 22) #
     map Print
       [DataHeader 21, IdLine (PInt 1), TextLine (PStr (py ''first'')),
        DataHeader 22, IdLine (PInt 2), TextLine (PStr (py ''second''))]) \<and>
   (\<exists>q. show_page untyped_db (default_args\<lparr>collection := Some (py ''docs''), offset := 4\<rparr>)
       (py ''docs'')
       \<lparr>d_description = Some (PStr (py ''demo'')),
        d_fields = Some [Some (py ''id''), Some (py ''text''), Some (py ''embedding'')]\<rparr> =
     Call (Query q) # Print (DataRange 5 6) #
     map Print [DataHeader 5, IdLine (PInt 1)] @
     [Print (QueryFailed Fault), Print (QueryFailedKind Fault), PrintExc Fault])"
proof
  let ?a = "default_args\<lparr>collection := Some (py ''docs''), offset := 20\<rparr>"
  let ?d = "\<lparr>d_description = Some (PStr (py ''demo'')),
        d_fields = Some [Some (py ''id''), Some (py ''text''), Some (py ''embedding'')]\<rparr>"
  let ?r0 = "[(py ''id'', PInt 1), (py ''text'', PStr (py ''first''))]"
  let ?r1 = "[(py ''id'', PInt 2), (py ''text'', PStr (py ''second''))]"
  have o: "other_fields names r = ([], None)" if "r = ?r0 \<or> r = ?r1" for r names
  proof -
    have "other_field r n = []" for n
      using that by (cases n) (auto simp add: reserved_def)
    then show ?thesis by (induction names) (simp_all add: other_fields_def)
  qed
  have r0: "render_item docs_db ?a names i ?r0 =
      ([DataHeader (20 + int i + 1), IdLine (PInt 1), TextLine (PStr (py ''first''))], None)"
    for names i
    by (simp add: render_item_def id_block_def text_block_def shorten_def reference_block_def
        metadata_block_def vector_block_def o default_args_def)
  have r1: "render_item docs_db ?a names i ?r1 =
      ([DataHeader (20 + int i + 1), IdLine (PInt 2), TextLine (PStr (py ''second''))], None)"
    for names i
    by (simp add: render_item_def id_block_def text_block_def shorten_def reference_block_def
        metadata_block_def vector_block_def o default_args_def)
  have q: "query docs_db (page_query ?a (py ''docs'')
             (snd (select_fields ?a (case d_fields ?d of None \<Rightarrow> [] | Some fs \<Rightarrow> fs)))) =
           Inr [?r0, ?r1]"
    by (simp add: docs_db_def page_query_def)
  from page_numbering [OF q] obtain q names m rest where
    p: "show_page docs_db ?a (py ''docs'') ?d =
      Call (Query q) # Print (DataRange (offset ?a + 1) (offset ?a + int (length [?r0, ?r1]))) #
      map Print (concat (map (\<lambda>i. DataHeader (offset ?a + int i + 1) #
          tl (fst (render_item docs_db ?a names i ([?r0, ?r1] ! i)))) [0..<m])) @ rest"
    and m: "0 < m" "m \<le> length [?r0, ?r1]"
    and c: "case snd (render_item docs_db ?a names (m - 1) ([?r0, ?r1] ! (m - 1))) of
       None \<Rightarrow> m = length [?r0, ?r1] \<and> rest = []
     | Some e \<Rightarrow> rest = [Print (QueryFailed e), Print (QueryFailedKind e), PrintExc e]"
    by auto
  have off: "offset ?a = 20" by (simp add: default_args_def)
  from m have "m = 1 \<or> m = 2" by auto
  with c have "m = 2" and "rest = []"
    by (auto simp add: r0 r1)
  with p show "\<exists>q. show_page docs_db ?a (py ''docs'') ?d =
     Call (Query q) # Print (DataRange 21 22) #
     map Print
       [DataHeader 21, IdLine (PInt 1), TextLine (PStr (py ''first'')),
        DataHeader 22, IdLine (PInt 2), TextLine (PStr (py ''second''))]"
    by (intro exI [of _ q]) (simp add: r0 r1 off upt_rec)
next
  let ?a = "default_args\<lparr>collection := Some (py ''docs''), offset := 4\<rparr>"
  let ?d = "\<lparr>d_description = Some (PStr (py ''demo'')),
        d_fields = Some [Some (py ''id''), Some (py ''text''), Some (py ''embedding'')]\<rparr>"
  let ?r0 = "[(py ''id'', PInt 1), (py ''text'', PNone)]"
  let ?r1 = "[(py ''id'', PInt 2), (py ''text'', PStr (py ''second''))]"
  have r0: "render_item untyped_db ?a names i ?r0 =
      ([DataHeader (4 + int i + 1), IdLine (PInt 1)], Some Fault)"
    for names i
    by (simp add: render_item_def id_block_def text_block_def shorten_def default_args_def)
  have q: "query untyped_db (page_query ?a (py ''docs'')
             (snd (select_fields ?a (case d_fields ?d of None \<Rightarrow> [] | Some fs \<Rightarrow> fs)))) =
           Inr [?r0, ?r1]"
    by (simp add: untyped_db_def docs_db_def)
  from page_numbering [OF q] obtain q names m rest where
    p: "show_page untyped_db ?a (py ''docs'') ?d =
      Call (Query q) # Print (DataRange (offset ?a + 1) (offset ?a + int (length [?r0, ?r1]))) #
      map Print (concat (map (\<lambda>i. DataHeader (offset ?a + int i + 1) #
          tl (fst (render_item untyped_db ?a names i ([?r0, ?r1] ! i)))) [0..<m])) @ rest"
    and m: "0 < m" "m \<le> length [?r0, ?r1]"
    and n: "\<forall>i<m - 1. snd (render_item untyped_db ?a names i ([?r0, ?r1] ! i)) = None"
    and c: "case snd (render_item untyped_db ?a names (m - 1) ([?r0, ?r1] ! (m - 1))) of
       None \<Rightarrow> m = length [?r0, ?r1] \<and> rest = []
     | Some e \<Rightarrow> rest = [Print (QueryFailed e), Print (QueryFailedKind e), PrintExc e]"
    by auto
  have off: "offset ?a = 4" by (simp add: default_args_def)
  from m have "m = 1 \<or> m = 2" by auto
  moreover have "m \<noteq> 2"
  proof
    assume "m = 2"
    with n have "snd (render_item untyped_db ?a names 0 ([?r0, ?r1] ! 0)) = None" by simp
    then show False by (simp add: r0)
  qed
  ultimately have m1: "m = 1" by simp
  with c have "rest = [Print (QueryFailed Fault), Print (QueryFailedKind Fault), PrintExc Fault]"
    by (simp add: r0)
  with p m1 show "\<exists>q. show_page untyped_db ?a (py ''docs'') ?d =
     Call (Query q) # Print (DataRange 5 6) #
     map Print [DataHeader 5, IdLine (PInt 1)] @
     [Print (QueryFailed Fault), Print (QueryFailedKind Fault), PrintExc Fault]"
    by (intro exI [of _ q]) (simp add: r0 off)
qed

end
